theory Spec2Isabelle
  imports Main "HOL-Library.Word"
begin

unbundle bit_operations_syntax

section \<open>Python values: text, byte strings, exceptions\<close>

text \<open>
  A Python \<open>bytes\<close> value is a list of 8-bit characters. A Python \<open>str\<close> is modelled as
  a list of code points below 256 (the type \<open>char\<close> has exactly these values), which
  covers every text literal of the program; \<open>encode_utf8\<close> is UTF-8 on that range.
\<close>

type_synonym bytes = "char list"
type_synonym str = "char list"

datatype exn_class =
    SocketTimeout
  | ConnectionRefusedError
  | ConnectionResetError
  | BrokenPipeError
  | ConnectionError
  | OSError
  | BinasciiError
  | IndexError
  | OtherException

datatype exn = Exn (cls: exn_class) (message: str)

text \<open>The subclass tests used by the \<open>except\<close> clauses of the program.\<close>

definition is_timeout_or_refused :: "exn \<Rightarrow> bool" where
  "is_timeout_or_refused e = (cls e = SocketTimeout \<or> cls e = ConnectionRefusedError)"

definition isinstance_ConnectionError :: "exn \<Rightarrow> bool" where
  "isinstance_ConnectionError e =
     (cls e = ConnectionError \<or> cls e = ConnectionRefusedError
      \<or> cls e = ConnectionResetError \<or> cls e = BrokenPipeError)"

definition isinstance_IOError :: "exn \<Rightarrow> bool" where
  "isinstance_IOError e =
     (cls e = OSError \<or> cls e = SocketTimeout \<or> isinstance_ConnectionError e)"

subsection \<open>Decimal text of integers\<close>

definition digit_char :: "nat \<Rightarrow> char" where
  "digit_char d = ''0123456789'' ! d"

function str_nat :: "nat \<Rightarrow> str" where
  "str_nat n = (if n < 10 then [digit_char n] else str_nat (n div 10) @ [digit_char (n mod 10)])"
  by pat_completeness auto
termination
  by (relation "measure (\<lambda>n. n)") auto

declare str_nat.simps [simp del]

definition str_int :: "int \<Rightarrow> str" where
  "str_int i = (if i < 0 then CHR ''-'' # str_nat (nat (- i)) else str_nat (nat i))"

definition zero_pad :: "nat \<Rightarrow> nat \<Rightarrow> str" where
  "zero_pad width n = replicate (width - length (str_nat n)) CHR ''0'' @ str_nat n"

subsection \<open>Operations on text and byte strings\<close>

fun startswith :: "char list \<Rightarrow> char list \<Rightarrow> bool" where
  "startswith xs [] = True"
| "startswith [] (p # ps) = False"
| "startswith (x # xs) (p # ps) = (x = p \<and> startswith xs ps)"

text \<open>\<open>sep in xs\<close> on byte strings.\<close>

fun contains :: "bytes \<Rightarrow> bytes \<Rightarrow> bool" where
  "contains sep [] = (sep = [])"
| "contains sep (x # xs) = (startswith (x # xs) sep \<or> contains sep xs)"

text \<open>
  \<open>xs.split(sep)\<close> for a non-empty separator: the pieces between the non-overlapping
  occurrences of \<open>sep\<close>, found from the left. \<open>acc\<close> is the piece being collected.
\<close>

function split_from :: "bytes \<Rightarrow> bytes \<Rightarrow> bytes \<Rightarrow> bytes list" where
  "split_from sep acc [] = [acc]"
| "split_from sep acc (x # xs) =
     (if sep \<noteq> [] \<and> startswith (x # xs) sep
      then acc # split_from sep [] (drop (length sep) (x # xs))
      else split_from sep (acc @ [x]) xs)"
  by pat_completeness auto
termination
  by (relation "measure (\<lambda>(sep, acc, xs). length xs)") auto

definition split_bytes :: "bytes \<Rightarrow> bytes \<Rightarrow> bytes list" where
  "split_bytes xs sep = split_from sep [] xs"

text \<open>\<open>s.strip()\<close>: the white space of \<open>str.isspace\<close> among the code points below 256.\<close>

definition isspace :: "char \<Rightarrow> bool" where
  "isspace c = (of_char c \<in> {9, 10, 11, 12, 13, 28, 29, 30, 31, 32, 133, 160 :: nat})"

definition strip :: "str \<Rightarrow> str" where
  "strip s = rev (dropWhile isspace (rev (dropWhile isspace s)))"

text \<open>\<open>s.encode("utf-8")\<close> on code points below 256: one byte below 128, two bytes above.\<close>

definition encode_char :: "char \<Rightarrow> bytes" where
  "encode_char c =
     (let n = of_char c :: nat
      in if n < 128 then [c]
         else [char_of (192 OR drop_bit 6 n), char_of (128 OR (n AND 63))])"

definition encode_utf8 :: "str \<Rightarrow> bytes" where
  "encode_utf8 s = concat (map encode_char s)"

subsection \<open>The standard library's base64 decoder\<close>

text \<open>
  \<open>base64.b64decode(s)\<close> with its default arguments is \<open>binascii.a2b_base64(s)\<close> in
  non-strict mode: characters outside the alphabet are skipped, a pad character ends the
  input once it completes a quad, and input that ends inside a quad is an error.
\<close>

definition table_a2b_base64 :: "char \<Rightarrow> nat option" where
  "table_a2b_base64 c =
     (let n = of_char c :: nat
      in if 65 \<le> n \<and> n \<le> 90 then Some (n - 65)
         else if 97 \<le> n \<and> n \<le> 122 then Some (n - 71)
         else if 48 \<le> n \<and> n \<le> 57 then Some (n + 4)
         else if c = CHR ''+'' then Some 62
         else if c = CHR ''/'' then Some 63
         else None)"

fun a2b_base64 :: "bytes \<Rightarrow> nat \<Rightarrow> nat \<Rightarrow> nat \<Rightarrow> bytes \<Rightarrow> exn + bytes" where
  "a2b_base64 [] quad_pos leftchar pads out =
     (if quad_pos \<noteq> 0
      then (if quad_pos = 1
            then Inl (Exn BinasciiError
                   (''Invalid base64-encoded string: number of data characters (''
                    @ str_nat (length out div 3 * 4 + 1)
                    @ '') cannot be 1 more than a multiple of 4''))
            else Inl (Exn BinasciiError ''Incorrect padding''))
      else Inr out)"
| "a2b_base64 (c # cs) quad_pos leftchar pads out =
     (if c = CHR ''=''
      then (if quad_pos \<ge> 2 \<and> quad_pos + (pads + 1) \<ge> 4 then Inr out
            else a2b_base64 cs quad_pos leftchar
                   (if quad_pos \<ge> 2 then pads + 1 else pads) out)
      else (case table_a2b_base64 c of
              None \<Rightarrow> a2b_base64 cs quad_pos leftchar pads out
            | Some this_ch \<Rightarrow>
                (if quad_pos = 0 then a2b_base64 cs 1 this_ch 0 out
                 else if quad_pos = 1 then
                   a2b_base64 cs 2 (this_ch AND 15) 0
                     (out @ [char_of (push_bit 2 leftchar OR drop_bit 4 this_ch)])
                 else if quad_pos = 2 then
                   a2b_base64 cs 3 (this_ch AND 3) 0
                     (out @ [char_of (push_bit 4 leftchar OR drop_bit 2 this_ch)])
                 else
                   a2b_base64 cs 0 0 0
                     (out @ [char_of (push_bit 6 leftchar OR this_ch)]))))"

definition b64decode :: "bytes \<Rightarrow> exn + bytes" where
  "b64decode s = a2b_base64 s 0 0 0 []"

definition CRLF :: str where
  "CRLF = [CHR 0x0D, CHR 0x0A]"

section \<open>The world outside the program\<close>

text \<open>
  The camera, the file system and the clock are oracles held in the state. \<open>net s n\<close> is
  what the \<open>n\<close>-th connection attempt of the run meets: a failure to connect, or a
  socket on which \<open>sendall\<close> succeeds or raises and on which the \<open>i\<close>-th call of
  \<open>recv(4096)\<close> returns a chunk (the empty chunk when the peer has closed) or raises.
  \<open>fs s path\<close> is what opening \<open>path\<close> for writing and writing to it meets. The state
  also holds the attributes of the one \<open>CameraControl\<close> object of a run, the files
  written, and the trace of observable events.
\<close>

datatype level = INFO | WARNING | ERROR

datatype event =
    is_Log: Log level str
  | is_Connect: Connect str int
  | is_SendAll: SendAll str int bytes
  | is_Close: Close str int
  | is_Print: Print str

datatype conn =
    ConnectRaises exn
  | Established "exn option" "nat \<Rightarrow> exn + bytes"

datatype fs_outcome =
    OpenRaises exn
  | WriteRaises exn nat
  | WriteOk

record datetime =
  year :: nat
  month :: nat
  day :: nat
  hour :: nat
  minute :: nat
  second :: nat

record sock =
  peer_host :: str
  peer_port :: int
  sendall_raises :: "exn option"
  recv :: "nat \<Rightarrow> exn + bytes"

record state =
  self_host :: str
  self_control_port :: int
  self_results_port :: int
  net :: "nat \<Rightarrow> conn"
  nconn :: nat
  fs :: "str \<Rightarrow> fs_outcome"
  clock :: datetime
  files :: "str \<rightharpoonup> bytes"
  trace :: "event list"

definition emit :: "event \<Rightarrow> state \<Rightarrow> state" where
  "emit e s = s\<lparr>trace := trace s @ [e]\<rparr>"

definition log :: "level \<Rightarrow> str \<Rightarrow> state \<Rightarrow> state" where
  "log l m s = emit (Log l m) s"

text \<open>\<open>socket.create_connection((host, port), timeout=5)\<close>, and \<open>connect\<close> on a new socket.\<close>

definition create_connection :: "str \<Rightarrow> int \<Rightarrow> state \<Rightarrow> (exn + sock) \<times> state" where
  "create_connection host port s =
     (let s1 = emit (Connect host port) (s\<lparr>nconn := nconn s + 1\<rparr>)
      in case net s (nconn s) of
           ConnectRaises e \<Rightarrow> (Inl e, s1)
         | Established sd rcv \<Rightarrow>
             (Inr \<lparr>peer_host = host, peer_port = port, sendall_raises = sd, recv = rcv\<rparr>, s1))"

definition sendall :: "sock \<Rightarrow> bytes \<Rightarrow> state \<Rightarrow> (exn + unit) \<times> state" where
  "sendall sk data s =
     (let s1 = emit (SendAll (peer_host sk) (peer_port sk) data) s
      in case sendall_raises sk of Some e \<Rightarrow> (Inl e, s1) | None \<Rightarrow> (Inr (), s1))"

definition close :: "sock \<Rightarrow> state \<Rightarrow> state" where
  "close sk s = emit (Close (peer_host sk) (peer_port sk)) s"

text \<open>\<open>datetime.now().strftime("%Y%m%d_%H%M%S")\<close>, for the years from 1000 on.\<close>

definition strftime :: "datetime \<Rightarrow> str" where
  "strftime d =
     zero_pad 4 (year d) @ zero_pad 2 (month d) @ zero_pad 2 (day d) @ ''_''
     @ zero_pad 2 (hour d) @ zero_pad 2 (minute d) @ zero_pad 2 (second d)"

text \<open>
  \<open>open(path, "wb")\<close> followed by \<open>f.write(data)\<close>: opening creates or empties the file;
  a write that raises has put the first \<open>n\<close> bytes there.
\<close>

definition open_and_write :: "str \<Rightarrow> bytes \<Rightarrow> state \<Rightarrow> (exn + unit) \<times> state" where
  "open_and_write path data s =
     (case fs s path of
        OpenRaises e \<Rightarrow> (Inl e, s)
      | WriteRaises e n \<Rightarrow> (Inl e, s\<lparr>files := (files s)(path \<mapsto> take n data)\<rparr>)
      | WriteOk \<Rightarrow> (Inr (), s\<lparr>files := (files s)(path \<mapsto> data)\<rparr>))"

section \<open>src/zebra/__main__.py: class CameraControl\<close>

definition CameraControl_init :: "str \<Rightarrow> int \<Rightarrow> int \<Rightarrow> state \<Rightarrow> state" where
  "CameraControl_init host control_port results_port s =
     s\<lparr>self_host := host, self_control_port := control_port,
       self_results_port := results_port\<rparr>"

text \<open>\<open>_send_to_socket\<close>: the body of the \<open>try\<close>, then the \<open>except\<close> clause around it.\<close>

definition send_to_socket_try :: "str \<Rightarrow> int \<Rightarrow> bytes \<Rightarrow> state \<Rightarrow> (exn + unit) \<times> state" where
  "send_to_socket_try host port data s =
     (case create_connection host port s of
        (Inl e, s1) \<Rightarrow> (Inl e, s1)
      | (Inr sk, s1) \<Rightarrow> (case sendall sk data s1 of (r, s2) \<Rightarrow> (r, close sk s2)))"

definition send_to_socket :: "str \<Rightarrow> int \<Rightarrow> bytes \<Rightarrow> state \<Rightarrow> (exn + unit) \<times> state" where
  "send_to_socket host port data s =
     (case send_to_socket_try host port data s of
        (Inl e, s1) \<Rightarrow>
          (if is_timeout_or_refused e
           then (Inl (Exn ConnectionError
                   (''Failed to send data to '' @ host @ '':'' @ str_int port
                    @ ''. Error: '' @ message e)), s1)
           else (Inl e, s1))
      | (Inr u, s1) \<Rightarrow> (Inr u, s1))"

text \<open>
  The \<open>while True\<close> loop of \<open>_receive_from_socket\<close>; \<open>i\<close> counts the calls of \<open>recv\<close>.
  The loop has no bound: on a peer that never closes and never stalls it does not return,
  which is the value \<open>None\<close>.
\<close>

partial_function (option) recv_loop :: "(nat \<Rightarrow> exn + bytes) \<Rightarrow> nat \<Rightarrow> bytes \<Rightarrow> (exn + bytes) option" where
  "recv_loop rcv i response =
     (case rcv i of
        Inl e \<Rightarrow> Some (Inl e)
      | Inr chunk \<Rightarrow>
          (if chunk = [] then Some (Inr response)
           else recv_loop rcv (Suc i) (response @ chunk)))"

definition receive_from_socket_try :: "str \<Rightarrow> int \<Rightarrow> state \<Rightarrow> ((exn + bytes) \<times> state) option" where
  "receive_from_socket_try host port s =
     (case create_connection host port s of
        (Inl e, s1) \<Rightarrow> Some (Inl e, s1)
      | (Inr sk, s1) \<Rightarrow>
          (case recv_loop (recv sk) 0 [] of
             None \<Rightarrow> None
           | Some r \<Rightarrow> Some (r, close sk s1)))"

definition receive_from_socket :: "str \<Rightarrow> int \<Rightarrow> state \<Rightarrow> ((exn + bytes) \<times> state) option" where
  "receive_from_socket host port s =
     (case receive_from_socket_try host port s of
        None \<Rightarrow> None
      | Some (Inl e, s1) \<Rightarrow>
          (if is_timeout_or_refused e
           then Some (Inl (Exn ConnectionError
                   (''Failed to receive data from '' @ host @ '':'' @ str_int port
                    @ ''. Error: '' @ message e)), s1)
           else Some (Inl e, s1))
      | Some (Inr response, s1) \<Rightarrow> Some (Inr response, s1))"

definition send_command :: "str \<Rightarrow> state \<Rightarrow> ((exn + bytes) \<times> state) option" where
  "send_command command s =
     (let s0 = log INFO (''Sending command: '' @ strip command) s
      in case send_to_socket (self_host s0) (self_control_port s0) (encode_utf8 command) s0 of
           (Inl e, s1) \<Rightarrow> Some (Inl e, s1)
         | (Inr u, s1) \<Rightarrow> receive_from_socket (self_host s1) (self_results_port s1) s1)"

definition trigger :: "state \<Rightarrow> ((exn + unit) \<times> state) option" where
  "trigger s =
     (case send_command (''TRIGGER'' @ CRLF) (log INFO ''Triggering camera'' s) of
        None \<Rightarrow> None
      | Some (Inl e, s1) \<Rightarrow> Some (Inl e, s1)
      | Some (Inr response, s1) \<Rightarrow> Some (Inr (), s1))"

definition save_image_data :: "bytes \<Rightarrow> str \<Rightarrow> state \<Rightarrow> (exn + unit) \<times> state" where
  "save_image_data image_data image_path s =
     (case open_and_write image_path image_data s of
        (Inl e, s1) \<Rightarrow>
          (if isinstance_IOError e
           then (Inl (Exn OSError
                   (''Failed to save image to '' @ image_path @ ''. Error: '' @ message e)), s1)
           else (Inl e, s1))
      | (Inr u, s1) \<Rightarrow> (Inr u, s1))"

text \<open>\<open>_process_image_data\<close>: the body of the \<open>try\<close>, then \<open>except Exception\<close>.\<close>

definition process_image_data_try :: "bytes \<Rightarrow> state \<Rightarrow> (exn + unit) \<times> state" where
  "process_image_data_try response s =
     (case split_bytes response ''/9j/'' of
        p0 # base64_data # ps \<Rightarrow>
          (case b64decode (''/9j/'' @ base64_data) of
             Inl e \<Rightarrow> (Inl e, s)
           | Inr image_data \<Rightarrow>
               (let timestamp = strftime (clock s);
                    image_filename = ''output_image_'' @ timestamp @ ''.jpg'';
                    image_path = ''./images/'' @ image_filename
                in case save_image_data image_data image_path s of
                     (Inl e, s1) \<Rightarrow> (Inl e, s1)
                   | (Inr u, s1) \<Rightarrow>
                       (Inr (), log INFO (''Image saved successfully: '' @ image_filename) s1)))
      | _ \<Rightarrow> (Inl (Exn IndexError ''list index out of range''), s))"

definition process_image_data :: "bytes \<Rightarrow> state \<Rightarrow> (exn + unit) \<times> state" where
  "process_image_data response s =
     (case process_image_data_try response s of
        (Inl e, s1) \<Rightarrow> (Inr (), log ERROR (''Error processing image data: '' @ message e) s1)
      | (Inr u, s1) \<Rightarrow> (Inr u, s1))"

definition acquire_image :: "state \<Rightarrow> ((exn + unit) \<times> state) option" where
  "acquire_image s =
     (case trigger (log INFO ''Acquiring image from camera'' s) of
        None \<Rightarrow> None
      | Some (Inl e, s1) \<Rightarrow> Some (Inl e, s1)
      | Some (Inr u, s1) \<Rightarrow>
          (case send_command (''getresultimage'' @ CRLF) s1 of
             None \<Rightarrow> None
           | Some (Inl e, s2) \<Rightarrow> Some (Inl e, s2)
           | Some (Inr response, s2) \<Rightarrow>
               (if contains ''/9j/'' response
                then Some (process_image_data response s2)
                else Some (Inr (), log WARNING ''No image data found in the response'' s2))))"

section \<open>src/zebra/__main__.py: main\<close>

record args =
  arg_host :: str
  arg_control_port :: int
  arg_results_port :: int
  arg_trigger :: bool
  arg_acquire :: bool

definition main_try :: "args \<Rightarrow> state \<Rightarrow> ((exn + unit) \<times> state) option" where
  "main_try a s =
     (let camera = CameraControl_init (arg_host a) (arg_control_port a) (arg_results_port a) s
      in if arg_trigger a then trigger camera
         else if arg_acquire a then acquire_image camera
         else Some (Inr (), emit (Print ''Please specify either --trigger or --acquire'') camera))"

definition main :: "args \<Rightarrow> state \<Rightarrow> state option" where
  "main a s =
     (case main_try a s of
        None \<Rightarrow> None
      | Some (Inl e, s1) \<Rightarrow>
          (if isinstance_ConnectionError e
           then Some (emit (Print (''Connection error: '' @ message e)) s1)
           else Some (emit (Print (''An unexpected error occurred: '' @ message e)) s1))
      | Some (Inr u, s1) \<Rightarrow> Some s1)"

section \<open>src/trigger.py, lines 10 to 16: the control-channel block of the script\<close>




section \<open>A call up to the point where it starts to receive\<close>



section \<open>Notions of the specification\<close>

text \<open>The Endpoint of a client: the three attributes set at construction.\<close>

definition endpoint :: "state \<Rightarrow> str \<times> int \<times> int" where
  "endpoint s = (self_host s, self_control_port s, self_results_port s)"

text \<open>
  The specification's extracted image data: the part of the response from the first
  occurrence of the marker to the end (empty when the marker does not occur).
\<close>

fun from_first_marker :: "bytes \<Rightarrow> bytes \<Rightarrow> bytes" where
  "from_first_marker sep [] = []"
| "from_first_marker sep (x # xs) =
     (if startswith (x # xs) sep then x # xs else from_first_marker sep xs)"

section \<open>Concrete worlds\<close>

text \<open>
  A peer that accepts the connection, takes what is sent, delivers the given chunks and
  closes; and a network whose successive connection attempts meet the listed peers (and
  a refusal after them).
\<close>

definition replies :: "bytes list \<Rightarrow> conn" where
  "replies chunks =
     Established None (\<lambda>i. if i < length chunks then Inr (chunks ! i) else Inr [])"

definition script :: "conn list \<Rightarrow> nat \<Rightarrow> conn" where
  "script cs n =
     (if n < length cs then cs ! n
      else ConnectRaises (Exn ConnectionRefusedError ''[Errno 111] Connection refused''))"

definition lab_clock :: datetime where
  "lab_clock = \<lparr>year = 2024, month = 3, day = 9, hour = 14, minute = 5, second = 7\<rparr>"

definition lab :: "(nat \<Rightarrow> conn) \<Rightarrow> (str \<Rightarrow> fs_outcome) \<Rightarrow> state" where
  "lab n f =
     \<lparr>self_host = ''192.168.1.200'', self_control_port = 107, self_results_port = 25250,
      net = n, nconn = 0, fs = f, clock = lab_clock, files = Map.empty, trace = []\<rparr>"

definition lab_path :: str where
  "lab_path = ''./images/output_image_20240309_140507.jpg''"

text \<open>
  A camera that answers \<open>TRIGGER\<close> with \<open>ok\<close> and \<open>getresultimage\<close> with the given
  chunks.
\<close>

definition camera :: "bytes list \<Rightarrow> nat \<Rightarrow> conn" where
  "camera chunks = script [replies [], replies [''ok''], replies [], replies chunks]"

definition writable :: "str \<Rightarrow> fs_outcome" where
  "writable path = WriteOk"

definition full_disk :: "str \<Rightarrow> fs_outcome" where
  "full_disk path = WriteRaises (Exn OSError ''[Errno 28] No space left on device'') 0"

definition two_marker_world :: state where
  "two_marker_world = lab (camera [''/9j/AAAA/9j/BBBB'']) writable"

definition full_disk_world :: state where
  "full_disk_world = lab (camera [''HEADER/9j/AAAA=='']) full_disk"

definition never_reads :: "nat \<Rightarrow> exn + bytes" where
  "never_reads i = Inr []"

definition reset_world :: state where
  "reset_world =
     lab (script [Established
                    (Some (Exn ConnectionResetError ''[Errno 104] Connection reset by peer''))
                    never_reads])
         writable"

text \<open>A network on which every connection is refused.\<close>

definition refusing_world :: state where
  "refusing_world = lab (script []) writable"

text \<open>A results channel that delivers one chunk and then stalls until the timeout.\<close>

definition stalls :: "nat \<Rightarrow> exn + bytes" where
  "stalls i = (if i = 0 then Inr ''partial'' else Inl (Exn SocketTimeout ''timed out''))"

definition stalling_world :: state where
  "stalling_world = lab (script [replies [], Established None stalls]) writable"

text \<open>The command line \<open>--trigger --acquire\<close>, with the default host and ports.\<close>

definition both_flags :: args where
  "both_flags =
     \<lparr>arg_host = ''192.168.1.200'', arg_control_port = 107, arg_results_port = 25250,
      arg_trigger = True, arg_acquire = True\<rparr>"



text \<open>
  What a run shows: how it ended, a file after it, what was handed to \<open>sendall\<close>, and the
  last event of its trace.
\<close>

definition outcome :: "('r \<times> state) option \<Rightarrow> 'r option" where
  "outcome run = (case run of None \<Rightarrow> None | Some (r, s) \<Rightarrow> Some r)"

definition file_after :: "('r \<times> state) option \<Rightarrow> str \<Rightarrow> bytes option" where
  "file_after run path = (case run of None \<Rightarrow> None | Some (r, s) \<Rightarrow> files s path)"

definition sends :: "state \<Rightarrow> event list" where
  "sends s = filter is_SendAll (trace s)"


definition last_event :: "('r \<times> state) option \<Rightarrow> event option" where
  "last_event run =
     (case run of
        None \<Rightarrow> None
      | Some (r, s) \<Rightarrow> (if trace s = [] then None else Some (last (trace s))))"

section \<open>Byte strings: containment and splitting\<close>

lemma startswith_decomp: "startswith xs sep \<Longrightarrow> xs = sep @ drop (length sep) xs"
  by (induction xs sep rule: startswith.induct) auto

lemma split_from_not_Nil: "split_from sep acc xs \<noteq> []"
  by (induction sep acc xs rule: split_from.induct) auto

lemma contains_split_from:
  "sep \<noteq> [] \<Longrightarrow> contains sep xs \<Longrightarrow> \<exists>p b ps. split_from sep acc xs = p # b # ps"
proof (induction sep acc xs rule: split_from.induct)
  case (1 sep acc)
  then show ?case by simp
next
  case (2 sep acc x xs)
  show ?case
  proof (cases "startswith (x # xs) sep")
    case True
    obtain q qs where "split_from sep [] (drop (length sep) (x # xs)) = q # qs"
      using split_from_not_Nil by (meson list.exhaust)
    with True "2.prems" show ?thesis by simp
  next
    case False
    with "2.prems" have "contains sep xs" by simp
    with False "2.IH"(2) "2.prems" show ?thesis by simp
  qed
qed

lemma split_from_no_marker: "\<not> contains sep xs \<Longrightarrow> split_from sep acc xs = [acc @ xs]"
  by (induction sep acc xs rule: split_from.induct) auto

lemma split_from_single:
  "sep \<noteq> [] \<Longrightarrow> contains sep xs \<Longrightarrow>
   \<not> contains sep (drop (length sep) (from_first_marker sep xs)) \<Longrightarrow>
   \<exists>p. split_from sep acc xs = [p, drop (length sep) (from_first_marker sep xs)]"
proof (induction sep acc xs rule: split_from.induct)
  case (1 sep acc)
  then show ?case by simp
next
  case (2 sep acc x xs)
  show ?case
  proof (cases "startswith (x # xs) sep")
    case True
    with "2.prems" show ?thesis by (simp add: split_from_no_marker)
  next
    case False
    with "2.prems" "2.IH"(2) show ?thesis by simp
  qed
qed

lemma from_first_marker_decomp:
  "contains sep xs \<Longrightarrow> from_first_marker sep xs = sep @ drop (length sep) (from_first_marker sep xs)"
proof (induction xs)
  case Nil
  then show ?case by simp
next
  case (Cons x xs)
  then show ?case using startswith_decomp[of "x # xs" sep] by (cases "startswith (x # xs) sep") auto
qed

section \<open>The receive loop\<close>

lemma recv_loop_chunks:
  "(\<forall>j < length chunks. rcv (i + j) = Inr (chunks ! j)) \<Longrightarrow> [] \<notin> set chunks \<Longrightarrow>
   recv_loop rcv i acc = recv_loop rcv (i + length chunks) (acc @ concat chunks)"
proof (induction chunks arbitrary: i acc)
  case Nil
  then show ?case by simp
next
  case (Cons c cs)
  have c: "rcv i = Inr c" using Cons.prems(1) by (metis add.right_neutral length_greater_0_conv list.discI nth_Cons_0)
  have rest: "\<forall>j < length cs. rcv (Suc i + j) = Inr (cs ! j)"
  proof (intro allI impI)
    fix j assume "j < length cs"
    then have "rcv (i + Suc j) = Inr ((c # cs) ! Suc j)" using Cons.prems(1) by (metis Suc_less_eq length_Cons)
    then show "rcv (Suc i + j) = Inr (cs ! j)" by simp
  qed
  have "c \<noteq> []" "[] \<notin> set cs" using Cons.prems(2) by auto
  then have "recv_loop rcv i acc = recv_loop rcv (Suc i) (acc @ c)"
    using c by (subst recv_loop.simps) simp
  also have "\<dots> = recv_loop rcv (Suc i + length cs) ((acc @ c) @ concat cs)"
    using Cons.IH[OF rest \<open>[] \<notin> set cs\<close>] .
  finally show ?case by simp
qed

lemma recv_loop_close: "rcv i = Inr [] \<Longrightarrow> recv_loop rcv i acc = Some (Inr acc)"
  by (subst recv_loop.simps) simp

lemma recv_loop_raise: "rcv i = Inl e \<Longrightarrow> recv_loop rcv i acc = Some (Inl e)"
  by (subst recv_loop.simps) simp



text \<open>The loop returns bytes only at a zero-length read.\<close>

lemma recv_loop_returns_at_close:
  assumes "recv_loop rcv i acc = Some y"
  shows "\<forall>response. y = Inr response \<longrightarrow> (\<exists>n\<ge>i. rcv n = Inr [])"
proof (rule recv_loop.raw_induct[where P = "\<lambda>rcv i acc y. \<forall>response. y = Inr response \<longrightarrow> (\<exists>n\<ge>i. rcv n = Inr [])", OF _ assms])
  fix f :: "(nat \<Rightarrow> exn + bytes) \<Rightarrow> nat \<Rightarrow> bytes \<Rightarrow> (exn + bytes) option"
  fix rcv i response y
  assume IH: "\<And>rcv i response y. f rcv i response = Some y
                \<Longrightarrow> \<forall>response. y = Inr response \<longrightarrow> (\<exists>n\<ge>i. rcv n = Inr [])"
  assume step: "(case rcv i of Inl e \<Rightarrow> Some (Inl e)
      | Inr chunk \<Rightarrow> if chunk = [] then Some (Inr response) else f rcv (Suc i) (response @ chunk)) = Some y"
  show "\<forall>response. y = Inr response \<longrightarrow> (\<exists>n\<ge>i. rcv n = Inr [])"
  proof (cases "rcv i")
    case (Inl e)
    with step show ?thesis by auto
  next
    case (Inr chunk)
    show ?thesis
    proof (cases "chunk = []")
      case True
      with Inr show ?thesis by auto
    next
      case False
      with Inr step have "f rcv (Suc i) (response @ chunk) = Some y" by simp
      from IH[OF this] show ?thesis using Suc_leD by blast
    qed
  qed
qed

section \<open>What one exchange with the camera does\<close>

lemmas net_defs = create_connection_def sendall_def close_def emit_def log_def

lemma send_to_socket_run:
  "send_to_socket h p d s =
     (case net s (nconn s) of
        ConnectRaises e \<Rightarrow>
          (Inl (if is_timeout_or_refused e
                then Exn ConnectionError (''Failed to send data to '' @ h @ '':'' @ str_int p
                       @ ''. Error: '' @ message e)
                else e),
           s\<lparr>nconn := nconn s + 1, trace := trace s @ [Connect h p]\<rparr>)
      | Established sd rcv \<Rightarrow>
          (case sd of
             None \<Rightarrow> Inr ()
           | Some e \<Rightarrow>
               Inl (if is_timeout_or_refused e
                    then Exn ConnectionError (''Failed to send data to '' @ h @ '':'' @ str_int p
                           @ ''. Error: '' @ message e)
                    else e),
           s\<lparr>nconn := nconn s + 1, trace := trace s @ [Connect h p, SendAll h p d, Close h p]\<rparr>))"
  by (simp add: send_to_socket_def send_to_socket_try_def net_defs Let_def
      split: conn.splits option.splits)

lemma receive_from_socket_run:
  "receive_from_socket h p s =
     (case net s (nconn s) of
        ConnectRaises e \<Rightarrow>
          Some (Inl (if is_timeout_or_refused e
                then Exn ConnectionError (''Failed to receive data from '' @ h @ '':'' @ str_int p
                       @ ''. Error: '' @ message e)
                else e),
           s\<lparr>nconn := nconn s + 1, trace := trace s @ [Connect h p]\<rparr>)
      | Established sd rcv \<Rightarrow>
          (case recv_loop rcv 0 [] of
             None \<Rightarrow> None
           | Some r \<Rightarrow>
              Some (case r of
                  Inr response \<Rightarrow> Inr response
                | Inl e \<Rightarrow>
               Inl (if is_timeout_or_refused e
                    then Exn ConnectionError (''Failed to receive data from '' @ h @ '':'' @ str_int p
                           @ ''. Error: '' @ message e)
                    else e),
           s\<lparr>nconn := nconn s + 1, trace := trace s @ [Connect h p, Close h p]\<rparr>)))"
  by (simp add: receive_from_socket_def receive_from_socket_try_def net_defs Let_def
      split: conn.splits option.splits sum.splits)

lemma send_to_socket_frame:
  "send_to_socket h p d s = (r, s') \<Longrightarrow> \<exists>t. s' = s\<lparr>nconn := nconn s + 1, trace := trace s @ Connect h p # t\<rparr> \<and> net s' = net s"
  by (auto simp: send_to_socket_run split: conn.splits option.splits)

lemma receive_from_socket_frame:
  "receive_from_socket h p s = Some (r, s') \<Longrightarrow> \<exists>t. s' = s\<lparr>nconn := nconn s + 1, trace := trace s @ Connect h p # t\<rparr>"
  by (auto simp: receive_from_socket_run split: conn.splits option.splits)


lemma send_command_established:
  assumes "net s (nconn s) = Established None r0"
      and "net s (Suc (nconn s)) = Established sd rcv"
  shows "send_command command s =
     (case recv_loop rcv 0 [] of
        None \<Rightarrow> None
      | Some r \<Rightarrow>
          Some (case r of
                  Inr response \<Rightarrow> Inr response
                | Inl e \<Rightarrow>
                    Inl (if is_timeout_or_refused e
                         then Exn ConnectionError
                                (''Failed to receive data from '' @ self_host s @ '':''
                                 @ str_int (self_results_port s) @ ''. Error: '' @ message e)
                         else e),
                s\<lparr>nconn := nconn s + 2,
                  trace := trace s @
                    [Log INFO (''Sending command: '' @ strip command),
                     Connect (self_host s) (self_control_port s),
                     SendAll (self_host s) (self_control_port s) (encode_utf8 command),
                     Close (self_host s) (self_control_port s),
                     Connect (self_host s) (self_results_port s),
                     Close (self_host s) (self_results_port s)]\<rparr>))"
  using assms
  by (simp add: send_command_def send_to_socket_run receive_from_socket_run log_def emit_def
      split: option.splits sum.splits)

lemma send_command_returns_at_close:
  assumes "send_command command s = Some (Inr response, s')"
  shows "\<exists>sd rcv n. net s (Suc (nconn s)) = Established sd rcv \<and> rcv n = Inr []"
proof -
  from assms obtain sd rcv y where
    "net s (Suc (nconn s)) = Established sd rcv" "recv_loop rcv 0 [] = Some (Inr y)"
    by (auto simp: send_command_def send_to_socket_run receive_from_socket_run log_def emit_def
        Let_def split: conn.splits option.splits sum.splits if_splits)
  with recv_loop_returns_at_close[of rcv 0 "[]" "Inr y"] show ?thesis by blast
qed

section \<open>The response of send\<close>

text \<open>
  Claim C6. When the control channel takes the command and the results channel delivers a
  sequence of non-empty chunks followed by a zero-length read, \<open>send_command\<close> returns,
  and what it returns is the concatenation of all the chunks in the order received: the
  loop stops at the zero-length read and not before.
\<close>

theorem send_returns_concatenation:
  assumes "net s (nconn s) = Established None r0"
      and "net s (Suc (nconn s)) = Established sd rcv"
      and "\<forall>j < length chunks. rcv j = Inr (chunks ! j)"
      and "[] \<notin> set chunks"
      and "rcv (length chunks) = Inr []"
  shows "\<exists>s'. send_command command s = Some (Inr (concat chunks), s')"
proof -
  have "recv_loop rcv 0 [] = recv_loop rcv (0 + length chunks) ([] @ concat chunks)"
    using assms(3,4) by (intro recv_loop_chunks) simp_all
  also have "\<dots> = Some (Inr (concat chunks))"
    using assms(5) by (simp add: recv_loop_close)
  finally have "recv_loop rcv 0 [] = Some (Inr (concat chunks))" .
  then show ?thesis
    by (simp add: send_command_established[OF assms(1,2)])
qed

theorem send_returns_concatenation_witness:
  "\<exists>s'. send_command (''getresultimage'' @ CRLF)
          (lab (script [replies [], replies [''HEAD'', ''/9j/'', ''AAAA'']]) (\<lambda>p. WriteOk))
        = Some (Inr ''HEAD/9j/AAAA'', s')"
proof -
  let ?rcv = "\<lambda>i. if i < length [''HEAD'', ''/9j/'', ''AAAA''] then Inr ([''HEAD'', ''/9j/'', ''AAAA''] ! i) else Inr []"
  let ?s = "lab (script [replies [], replies [''HEAD'', ''/9j/'', ''AAAA'']]) (\<lambda>p. WriteOk)"
  have h1: "net ?s (nconn ?s) = Established None (\<lambda>i. if i < length ([]::bytes list) then Inr ([] ! i) else Inr [])"
    by (simp add: lab_def script_def replies_def)
  have h2: "net ?s (Suc (nconn ?s)) = Established None ?rcv"
    by (simp add: lab_def script_def replies_def)
  have h3: "\<forall>j < length [''HEAD'', ''/9j/'', ''AAAA'']. ?rcv j = Inr ([''HEAD'', ''/9j/'', ''AAAA''] ! j)"
    by simp
  have h4: "[] \<notin> set [''HEAD'', ''/9j/'', ''AAAA'']" by simp
  have h5: "?rcv (length [''HEAD'', ''/9j/'', ''AAAA'']) = Inr []" by simp
  show ?thesis
    using send_returns_concatenation[OF h1 h2 h3 h4 h5, of "''getresultimage'' @ CRLF"] by simp
qed

section \<open>The two commands of the program\<close>

lemma encode_TRIGGER: "encode_utf8 (''TRIGGER'' @ CRLF) = ''TRIGGER'' @ CRLF"
  by code_simp

lemma encode_getresultimage: "encode_utf8 (''getresultimage'' @ CRLF) = ''getresultimage'' @ CRLF"
  by code_simp

lemma strip_TRIGGER: "strip (''TRIGGER'' @ CRLF) = ''TRIGGER''"
  by code_simp

lemma strip_getresultimage: "strip (''getresultimage'' @ CRLF) = ''getresultimage''"
  by code_simp

lemmas command_simps =
  encode_TRIGGER encode_getresultimage strip_TRIGGER strip_getresultimage
  encode_TRIGGER [simplified] encode_getresultimage [simplified]
  strip_TRIGGER [simplified] strip_getresultimage [simplified]

section \<open>What the operations change\<close>

lemma send_command_frame:
  assumes "send_command command s = Some (r, s')"
  shows "\<exists>n t. s' = s\<lparr>nconn := n, trace := trace s @ t\<rparr>"
proof -
  let ?s0 = "log INFO (''Sending command: '' @ strip command) s"
  obtain r1 s1 where st: "send_to_socket (self_host ?s0) (self_control_port ?s0) (encode_utf8 command) ?s0 = (r1, s1)"
    by (cases "send_to_socket (self_host ?s0) (self_control_port ?s0) (encode_utf8 command) ?s0")
  from send_to_socket_frame[OF st] obtain t1 where
    s1: "s1 = ?s0\<lparr>nconn := nconn ?s0 + 1, trace := trace ?s0 @ Connect (self_host ?s0) (self_control_port ?s0) # t1\<rparr>"
    by blast
  show ?thesis
  proof (cases r1)
    case (Inl e)
    with assms st have "s' = s1" by (simp add: send_command_def Let_def)
    with s1 show ?thesis by (simp add: log_def emit_def) blast
  next
    case (Inr u)
    with assms st have "receive_from_socket (self_host s1) (self_results_port s1) s1 = Some (r, s')"
      by (simp add: send_command_def Let_def)
    from receive_from_socket_frame[OF this] obtain t2 where
      "s' = s1\<lparr>nconn := nconn s1 + 1, trace := trace s1 @ Connect (self_host s1) (self_results_port s1) # t2\<rparr>"
      by blast
    with s1 show ?thesis by (simp add: log_def emit_def) blast
  qed
qed

lemma send_command_sends:
  assumes "send_command command s = Some (r, s')"
  shows "\<exists>t. trace s' = trace s @ Log INFO (''Sending command: '' @ strip command) # t
           \<and> (\<forall>e \<in> set t. \<not> is_Log e \<and> \<not> is_Print e)
           \<and> filter is_SendAll t =
               (case net s (nconn s) of
                  ConnectRaises e \<Rightarrow> []
                | Established sd rcv \<Rightarrow>
                    [SendAll (self_host s) (self_control_port s) (encode_utf8 command)])"
  using assms
  by (auto simp: send_command_def send_to_socket_run receive_from_socket_run log_def emit_def
      Let_def split: conn.splits option.splits sum.splits if_splits)

lemma trigger_frame:
  assumes "trigger s = Some (r, s')"
  shows "\<exists>n t. s' = s\<lparr>nconn := n, trace := trace s @ t\<rparr>"
proof -
  obtain r0 where "send_command (''TRIGGER'' @ CRLF) (log INFO ''Triggering camera'' s) = Some (r0, s')"
    using assms by (auto simp: trigger_def split: option.splits sum.splits)
  from send_command_frame[OF this] show ?thesis
    by (simp add: log_def emit_def) blast
qed

lemma trigger_sends:
  assumes "trigger s = Some (r, s')"
  shows "\<exists>t. trace s' = trace s @ Log INFO ''Triggering camera''
                 # Log INFO ''Sending command: TRIGGER'' # t
           \<and> (\<forall>e \<in> set t. \<not> is_Log e \<and> \<not> is_Print e)
           \<and> filter is_SendAll t =
               (case net s (nconn s) of
                  ConnectRaises e \<Rightarrow> []
                | Established sd rcv \<Rightarrow>
                    [SendAll (self_host s) (self_control_port s) (''TRIGGER'' @ CRLF)])"
proof -
  obtain r0 where "send_command (''TRIGGER'' @ CRLF) (log INFO ''Triggering camera'' s) = Some (r0, s')"
    using assms by (auto simp: trigger_def split: option.splits sum.splits)
  from send_command_sends[OF this] show ?thesis
    by (cases "net s (nconn s)") (simp_all add: log_def emit_def command_simps)
qed

lemma trigger_established:
  assumes "net s (nconn s) = Established None r0"
      and "net s (Suc (nconn s)) = Established sd rcv"
      and "recv_loop rcv 0 [] = Some (Inr response)"
  shows "trigger s =
     Some (Inr (),
       s\<lparr>nconn := nconn s + 2,
         trace := trace s @
           [Log INFO ''Triggering camera'',
            Log INFO ''Sending command: TRIGGER'',
            Connect (self_host s) (self_control_port s),
            SendAll (self_host s) (self_control_port s) (''TRIGGER'' @ CRLF),
            Close (self_host s) (self_control_port s),
            Connect (self_host s) (self_results_port s),
            Close (self_host s) (self_results_port s)]\<rparr>)"
proof -
  let ?s = "log INFO ''Triggering camera'' s"
  have "net ?s (nconn ?s) = Established None r0" "net ?s (Suc (nconn ?s)) = Established sd rcv"
    using assms(1,2) by (simp_all add: log_def emit_def)
  from send_command_established[OF this, of "''TRIGGER'' @ CRLF"] assms(3) show ?thesis
    by (simp add: trigger_def log_def emit_def command_simps)
qed

section \<open>What acquire_image changes\<close>

lemma process_image_data_returns: "fst (process_image_data response s) = Inr ()"
  by (simp add: process_image_data_def split: prod.splits sum.splits)

lemma save_image_data_frame:
  "save_image_data image_data image_path s = (r, s') \<Longrightarrow> \<exists>f. s' = s\<lparr>files := f\<rparr>"
  by (auto simp: save_image_data_def open_and_write_def
      split: fs_outcome.splits if_splits intro: exI[of _ "files s"])

lemma process_image_data_frame:
  assumes "process_image_data response s = (r, s')"
  shows "\<exists>f t. s' = s\<lparr>files := f, trace := trace s @ t\<rparr>"
proof -
  have base: "\<exists>f t. s\<lparr>trace := trace s @ [e]\<rparr> = s\<lparr>files := f, trace := trace s @ t\<rparr>" for e
    by (rule exI[of _ "files s"], rule exI[of _ "[e]"]) simp
  have saved: "\<exists>f t. s1\<lparr>trace := trace s1 @ [e]\<rparr> = s\<lparr>files := f, trace := trace s @ t\<rparr>"
    if "save_image_data d p s = (r1, s1)" for d p r1 s1 e
  proof -
    from save_image_data_frame[OF that] obtain f where "s1 = s\<lparr>files := f\<rparr>" by blast
    then show ?thesis by (intro exI[of _ f] exI[of _ "[e]"]) simp
  qed
  show ?thesis
    using assms
    by (auto simp: process_image_data_def process_image_data_try_def log_def emit_def Let_def
        split: list.splits sum.splits prod.splits intro: base saved)
qed

lemma acquire_image_frame:
  assumes "acquire_image s = Some (r, s')"
  shows "\<exists>n f t. s' = s\<lparr>nconn := n, files := f, trace := trace s @ t\<rparr>"
proof -
  let ?s0 = "log INFO ''Acquiring image from camera'' s"
  obtain r1 s1 where tr: "trigger ?s0 = Some (r1, s1)"
    using assms by (auto simp: acquire_image_def split: option.splits)
  from trigger_frame[OF tr] obtain n1 t1 where
    s1: "s1 = s\<lparr>nconn := n1, trace := trace s @ Log INFO ''Acquiring image from camera'' # t1\<rparr>"
    by (auto simp: log_def emit_def)
  show ?thesis
  proof (cases r1)
    case (Inl e)
    with assms tr have "s' = s1" by (simp add: acquire_image_def)
    with s1 show ?thesis
      by (intro exI[of _ n1] exI[of _ "files s"] exI[of _ "Log INFO ''Acquiring image from camera'' # t1"]) simp
  next
    case (Inr u)
    then obtain r2 s2 where sc: "send_command (''getresultimage'' @ CRLF) s1 = Some (r2, s2)"
      using assms tr by (auto simp: acquire_image_def split: option.splits)
    from send_command_frame[OF sc] s1 obtain n2 t2 where
      s2: "s2 = s\<lparr>nconn := n2, trace := trace s @ t2\<rparr>"
      by auto
    show ?thesis
    proof (cases r2)
      case (Inl e)
      with assms tr sc Inr have "s' = s2" by (simp add: acquire_image_def)
      with s2 show ?thesis
        by (intro exI[of _ n2] exI[of _ "files s"] exI[of _ t2]) simp
    next
      case response: (Inr response)
      show ?thesis
      proof (cases "contains ''/9j/'' response")
        case True
        with assms tr sc Inr response have "process_image_data response s2 = (r, s')"
          by (simp add: acquire_image_def)
        from process_image_data_frame[OF this] obtain f t3 where
          "s' = s2\<lparr>files := f, trace := trace s2 @ t3\<rparr>" by blast
        with s2 show ?thesis
          by (intro exI[of _ n2] exI[of _ f] exI[of _ "t2 @ t3"]) simp
      next
        case False
        with assms tr sc Inr response
        have "s' = log WARNING ''No image data found in the response'' s2"
          by (simp add: acquire_image_def)
        with s2 show ?thesis
          by (intro exI[of _ n2] exI[of _ "files s"]
              exI[of _ "t2 @ [Log WARNING ''No image data found in the response'']"])
            (simp add: log_def emit_def)
      qed
    qed
  qed
qed

section \<open>The Endpoint\<close>

text \<open>
  Claim C8. Construction sets the three Endpoint attributes to the values supplied, and
  every public operation (\<open>send_command\<close>, \<open>trigger\<close>, \<open>acquire_image\<close>) that returns
  leaves them as they were.
\<close>

theorem endpoint_never_mutated:
  "endpoint (CameraControl_init h cp rp w) = (h, cp, rp)
   \<and> (\<forall>r s'. send_command command s = Some (r, s') \<longrightarrow> endpoint s' = endpoint s)
   \<and> (\<forall>r s'. trigger s = Some (r, s') \<longrightarrow> endpoint s' = endpoint s)
   \<and> (\<forall>r s'. acquire_image s = Some (r, s') \<longrightarrow> endpoint s' = endpoint s)"
proof (intro conjI allI impI)
  show "endpoint (CameraControl_init h cp rp w) = (h, cp, rp)"
    by (simp add: endpoint_def CameraControl_init_def)
next
  fix r s' assume "send_command command s = Some (r, s')"
  from send_command_frame[OF this] show "endpoint s' = endpoint s"
    by (auto simp: endpoint_def)
next
  fix r s' assume "trigger s = Some (r, s')"
  from trigger_frame[OF this] show "endpoint s' = endpoint s"
    by (auto simp: endpoint_def)
next
  fix r s' assume "acquire_image s = Some (r, s')"
  from acquire_image_frame[OF this] show "endpoint s' = endpoint s"
    by (auto simp: endpoint_def)
qed

text \<open>Runs in which the camera answers both commands of \<open>acquire_image\<close>.\<close>

lemma exchange_returns:
  assumes "net s (nconn s) = Established None r0"
      and "net s (nconn s + 1) = Established sd1 rcv1"
      and "recv_loop rcv1 0 [] = Some (Inr response1)"
      and "net s (nconn s + 2) = Established None r2"
      and "net s (nconn s + 3) = Established sd3 rcv3"
      and "recv_loop rcv3 0 [] = Some (Inr response)"
  shows "\<exists>s1 s2. trigger (log INFO ''Acquiring image from camera'' s) = Some (Inr (), s1)
           \<and> send_command (''getresultimage'' @ CRLF) s1 = Some (Inr response, s2)"
proof -
  let ?s0 = "log INFO ''Acquiring image from camera'' s"
  have a: "net ?s0 (nconn ?s0) = Established None r0"
          "net ?s0 (Suc (nconn ?s0)) = Established sd1 rcv1"
    using assms(1,2) by (simp_all add: log_def emit_def)
  from trigger_established[OF a assms(3)] obtain s1 where
    tr: "trigger ?s0 = Some (Inr (), s1)" and n1: "nconn s1 = nconn s + 2" and net1: "net s1 = net s"
    by (simp add: log_def emit_def)
  have b: "net s1 (nconn s1) = Established None r2"
          "net s1 (Suc (nconn s1)) = Established sd3 rcv3"
    using assms(4,5) n1 net1 by (simp_all add: numeral_3_eq_3)
  from send_command_established[OF b, of "''getresultimage'' @ CRLF"] assms(6) tr
  show ?thesis by simp
qed

lemma replies_returns:
  assumes "[] \<notin> set chunks"
  shows "recv_loop (\<lambda>i. if i < length chunks then Inr (chunks ! i) else Inr []) 0 [] = Some (Inr (concat chunks))"
proof -
  let ?rcv = "\<lambda>i. if i < length chunks then Inr (chunks ! i) else Inr []"
  have "recv_loop ?rcv 0 [] = recv_loop ?rcv (0 + length chunks) ([] @ concat chunks)"
    using assms by (intro recv_loop_chunks) simp_all
  also have "\<dots> = Some (Inr (concat chunks))"
    by (simp add: recv_loop_close)
  finally show ?thesis .
qed

lemma lab_exchange:
  assumes "[] \<notin> set c1" and "[] \<notin> set c3"
  shows "\<exists>s1 s2. trigger (log INFO ''Acquiring image from camera''
                      (lab (script [replies c0, replies c1, replies c2, replies c3]) f))
                  = Some (Inr (), s1)
           \<and> send_command (''getresultimage'' @ CRLF) s1 = Some (Inr (concat c3), s2)
           \<and> fs s2 = f \<and> clock s2 = lab_clock \<and> files s2 = Map.empty"
proof -
  let ?s = "lab (script [replies c0, replies c1, replies c2, replies c3]) f"
  have n: "net ?s (nconn ?s) = Established None (\<lambda>i. if i < length c0 then Inr (c0 ! i) else Inr [])"
     "net ?s (nconn ?s + 1) = Established None (\<lambda>i. if i < length c1 then Inr (c1 ! i) else Inr [])"
     "net ?s (nconn ?s + 2) = Established None (\<lambda>i. if i < length c2 then Inr (c2 ! i) else Inr [])"
     "net ?s (nconn ?s + 3) = Established None (\<lambda>i. if i < length c3 then Inr (c3 ! i) else Inr [])"
    by (simp_all add: lab_def script_def replies_def)
  from exchange_returns[OF n(1) n(2) replies_returns[OF assms(1)] n(3) n(4) replies_returns[OF assms(2)]]
  obtain s1 s2 where
    tr: "trigger (log INFO ''Acquiring image from camera'' ?s) = Some (Inr (), s1)"
    and sc: "send_command (''getresultimage'' @ CRLF) s1 = Some (Inr (concat c3), s2)"
    by blast
  from trigger_frame[OF tr] send_command_frame[OF sc]
  have "fs s2 = f \<and> clock s2 = lab_clock \<and> files s2 = Map.empty"
    by (auto simp: log_def emit_def lab_def)
  with tr sc show ?thesis by blast
qed

theorem endpoint_never_mutated_witness:
  "\<exists>r1 s1 r2 s2 r3 s3.
     send_command ''status'' (CameraControl_init ''camera'' 7 9 (lab (script [replies [], replies [''ok'']]) (\<lambda>p. WriteOk)))
       = Some (r1, s1) \<and> endpoint s1 = (''camera'', 7, 9)
   \<and> trigger (CameraControl_init ''camera'' 7 9 (lab (script [replies [], replies [''ok'']]) (\<lambda>p. WriteOk)))
       = Some (r2, s2) \<and> endpoint s2 = (''camera'', 7, 9)
   \<and> acquire_image (lab (script [replies [], replies [''ok''], replies [], replies [''none'']]) (\<lambda>p. WriteOk))
       = Some (r3, s3) \<and> endpoint s3 = (''192.168.1.200'', 107, 25250)"
proof -
  let ?w = "lab (script [replies [], replies [''ok'']]) (\<lambda>p. WriteOk)"
  let ?s = "CameraControl_init ''camera'' 7 9 ?w"
  let ?a = "lab (script [replies [], replies [''ok''], replies [], replies [''none'']]) (\<lambda>p. WriteOk)"
  have n: "net ?s (nconn ?s) = Established None (\<lambda>i. if i < length ([]::bytes list) then Inr ([] ! i) else Inr [])"
     "net ?s (Suc (nconn ?s)) = Established None (\<lambda>i. if i < length [''ok''] then Inr ([''ok''] ! i) else Inr [])"
    by (simp_all add: lab_def script_def replies_def CameraControl_init_def)
  have ok: "recv_loop (\<lambda>i. if i < length [''ok''] then Inr ([''ok''] ! i) else Inr []) 0 [] = Some (Inr (concat [''ok'']))"
    by (rule replies_returns) simp
  from send_command_established[OF n, of "''status''"] ok
  obtain s1 where r1: "send_command ''status'' ?s = Some (Inr ''ok'', s1)" by simp
  from trigger_established[OF n ok]
  obtain s2 where r2: "trigger ?s = Some (Inr (), s2)" by blast
  have "[] \<notin> set [''ok'']" "[] \<notin> set [''none'']" by simp_all
  from lab_exchange[OF this, of "[]" "[]" "\<lambda>p. WriteOk"]
  obtain a1 a2 where
    "trigger (log INFO ''Acquiring image from camera'' ?a) = Some (Inr (), a1)"
    "send_command (''getresultimage'' @ CRLF) a1 = Some (Inr (concat [''none'']), a2)"
    by blast
  then obtain r3 s3 where r3: "acquire_image ?a = Some (r3, s3)"
    by (cases "contains ''/9j/'' (concat [''none''])")
       (auto simp: acquire_image_def split: prod.splits)
  have e: "endpoint ?s = (''camera'', 7, 9)" "endpoint ?a = (''192.168.1.200'', 107, 25250)"
    using endpoint_never_mutated[of "''camera''" 7 9 ?w] by (simp_all add: endpoint_def lab_def)
  from endpoint_never_mutated[of "''camera''" 7 9 ?w "''status''" ?s] r1 r2 e
  have "endpoint s1 = (''camera'', 7, 9)" "endpoint s2 = (''camera'', 7, 9)" by auto
  moreover from endpoint_never_mutated[of "''camera''" 7 9 ?w "''status''" ?a] r3 e
  have "endpoint s3 = (''192.168.1.200'', 107, 25250)" by auto
  ultimately show ?thesis using r1 r2 r3 by blast
qed

section \<open>acquire_image when no image is found\<close>

text \<open>
  Claim C2. When the camera's answer to \<open>getresultimage\<close> does not contain the marker
  \<open>/9j/\<close>, \<open>acquire_image\<close> returns normally, the last thing it does is log the warning
  "No image data found in the response", and the files are those of before the call.
\<close>

theorem no_marker_warns_without_write:
  assumes "trigger (log INFO ''Acquiring image from camera'' s) = Some (Inr (), s1)"
      and "send_command (''getresultimage'' @ CRLF) s1 = Some (Inr response, s2)"
      and "\<not> contains ''/9j/'' response"
  shows "\<exists>s'. acquire_image s = Some (Inr (), s')
           \<and> trace s' = trace s2 @ [Log WARNING ''No image data found in the response'']
           \<and> files s' = files s"
proof -
  from trigger_frame[OF assms(1)] send_command_frame[OF assms(2)]
  have "files s2 = files s" by (auto simp: log_def emit_def)
  with assms show ?thesis
    by (simp add: acquire_image_def log_def emit_def)
qed

theorem no_marker_warns_without_write_witness:
  "\<exists>s'. acquire_image (lab (script [replies [], replies [''ok''], replies [], replies [''no image ready'']]) (\<lambda>p. WriteOk))
          = Some (Inr (), s')
      \<and> last (trace s') = Log WARNING ''No image data found in the response''
      \<and> files s' = Map.empty"
proof -
  let ?s = "lab (script [replies [], replies [''ok''], replies [], replies [''no image ready'']]) (\<lambda>p. WriteOk)"
  have "[] \<notin> set [''ok'']" "[] \<notin> set [''no image ready'']" by simp_all
  from lab_exchange[OF this, of "[]" "[]" "\<lambda>p. WriteOk"]
  obtain s1 s2 where
    h1: "trigger (log INFO ''Acquiring image from camera'' ?s) = Some (Inr (), s1)" and
    h2: "send_command (''getresultimage'' @ CRLF) s1 = Some (Inr ''no image ready'', s2)"
    by auto
  have h3: "\<not> contains ''/9j/'' ''no image ready''" by code_simp
  from no_marker_warns_without_write[OF h1 h2 h3] show ?thesis
    by (auto simp: lab_def)
qed

text \<open>
  Claim C10. When the peer closes the results channel at once (the first read has length
  zero), \<open>send_command\<close> returns the empty byte string for every command, and
  \<open>acquire_image\<close> takes the branch without image: it returns normally, logs the warning
  and writes no file.
\<close>

theorem immediate_close_is_no_image:
  assumes "trigger (log INFO ''Acquiring image from camera'' s) = Some (Inr (), s1)"
      and "net s1 (nconn s1) = Established None r0"
      and "net s1 (Suc (nconn s1)) = Established sd rcv"
      and "rcv 0 = Inr []"
  shows "(\<forall>command. \<exists>s2. send_command command s1 = Some (Inr [], s2))
       \<and> (\<exists>s2 s'. send_command (''getresultimage'' @ CRLF) s1 = Some (Inr [], s2)
             \<and> acquire_image s = Some (Inr (), s')
             \<and> trace s' = trace s2 @ [Log WARNING ''No image data found in the response'']
             \<and> files s' = files s)"
proof -
  have closed: "recv_loop rcv 0 [] = Some (Inr [])"
    using assms(4) by (rule recv_loop_close)
  have every: "\<exists>s2. send_command command s1 = Some (Inr [], s2)" for command
    using send_command_established[OF assms(2,3), of command] closed by simp
  then obtain s2 where sc: "send_command (''getresultimage'' @ CRLF) s1 = Some (Inr [], s2)"
    by blast
  from trigger_frame[OF assms(1)] send_command_frame[OF sc]
  have "files s2 = files s" by (auto simp: log_def emit_def)
  with assms(1) sc have "\<exists>s2 s'. send_command (''getresultimage'' @ CRLF) s1 = Some (Inr [], s2)
             \<and> acquire_image s = Some (Inr (), s')
             \<and> trace s' = trace s2 @ [Log WARNING ''No image data found in the response'']
             \<and> files s' = files s"
    by (simp add: acquire_image_def log_def emit_def)
  with every show ?thesis by blast
qed

theorem immediate_close_is_no_image_witness:
  "\<exists>s'. acquire_image (lab (script [replies [], replies [''ok''], replies [], replies []]) (\<lambda>p. WriteOk))
          = Some (Inr (), s')
      \<and> last (trace s') = Log WARNING ''No image data found in the response''
      \<and> files s' = Map.empty"
proof -
  let ?s = "lab (script [replies [], replies [''ok''], replies [], replies []]) (\<lambda>p. WriteOk)"
  let ?s0 = "log INFO ''Acquiring image from camera'' ?s"
  let ?e = "\<lambda>i. if i < length ([]::bytes list) then Inr ([] ! i) else Inr []"
  let ?k = "\<lambda>i. if i < length [''ok''] then Inr ([''ok''] ! i) else Inr []"
  have n: "net ?s0 (nconn ?s0) = Established None ?e" "net ?s0 (Suc (nconn ?s0)) = Established None ?k"
    by (simp_all add: lab_def script_def replies_def log_def emit_def)
  have ok: "recv_loop ?k 0 [] = Some (Inr (concat [''ok'']))"
    by (rule replies_returns) simp
  from trigger_established[OF n ok] obtain s1 where
    h1: "trigger ?s0 = Some (Inr (), s1)" and n1: "nconn s1 = 2" and net1: "net s1 = net ?s"
    by (simp add: lab_def log_def emit_def)
  have h2: "net s1 (nconn s1) = Established None ?e"
   and h3: "net s1 (Suc (nconn s1)) = Established None ?e"
    using n1 net1 by (simp_all add: lab_def script_def replies_def log_def emit_def)
  have h4: "?e 0 = Inr []" by simp
  from immediate_close_is_no_image[OF h1 h2 h3 h4] show ?thesis
    by (auto simp: lab_def)
qed

section \<open>acquire_image when the marker is present\<close>

lemma split_bytes_two:
  "contains ''/9j/'' response \<Longrightarrow> \<exists>p0 base64_data ps. split_bytes response ''/9j/'' = p0 # base64_data # ps"
  unfolding split_bytes_def by (rule contains_split_from) simp_all

lemma acquire_image_with_marker:
  assumes "trigger (log INFO ''Acquiring image from camera'' s) = Some (Inr (), s1)"
      and "send_command (''getresultimage'' @ CRLF) s1 = Some (Inr response, s2)"
      and "contains ''/9j/'' response"
  shows "acquire_image s = Some (process_image_data response s2)"
  using assms by (simp add: acquire_image_def)

lemma process_image_data_decode_fails:
  assumes "split_bytes response ''/9j/'' = p0 # base64_data # ps"
      and "b64decode (''/9j/'' @ base64_data) = Inl e"
  shows "process_image_data response s
         = (Inr (), log ERROR (''Error processing image data: '' @ message e) s)"
  using assms by (simp add: process_image_data_def process_image_data_try_def)

lemma process_image_data_save:
  assumes "split_bytes response ''/9j/'' = p0 # base64_data # ps"
      and "b64decode (''/9j/'' @ base64_data) = Inr image_data"
  shows "process_image_data response s =
     (case save_image_data image_data
             (''./images/'' @ ''output_image_'' @ strftime (clock s) @ ''.jpg'') s of
        (Inl e, s1) \<Rightarrow> (Inr (), log ERROR (''Error processing image data: '' @ message e) s1)
      | (Inr u, s1) \<Rightarrow>
          (Inr (), log INFO (''Image saved successfully: '' @ ''output_image_''
                              @ strftime (clock s) @ ''.jpg'') s1))"
  using assms
  by (simp add: process_image_data_def process_image_data_try_def Let_def split: prod.splits sum.splits)

text \<open>
  Claim C3. When the camera's answer contains the marker, \<open>acquire_image\<close> returns
  normally whatever happens while the image is processed; in particular, when decoding
  the extracted data raises, the exception is caught and logged as an error with its
  message, nothing else changes, and nothing is raised to the caller.
\<close>

theorem decode_failure_is_caught:
  assumes "trigger (log INFO ''Acquiring image from camera'' s) = Some (Inr (), s1)"
      and "send_command (''getresultimage'' @ CRLF) s1 = Some (Inr response, s2)"
      and "contains ''/9j/'' response"
  shows "(\<exists>s'. acquire_image s = Some (Inr (), s'))
       \<and> (\<forall>p0 base64_data ps e.
            split_bytes response ''/9j/'' = p0 # base64_data # ps
            \<and> b64decode (''/9j/'' @ base64_data) = Inl e
            \<longrightarrow> acquire_image s
                = Some (Inr (), log ERROR (''Error processing image data: '' @ message e) s2))"
proof (intro conjI allI impI)
  have "acquire_image s = Some (process_image_data response s2)"
    using assms by (rule acquire_image_with_marker)
  moreover have "fst (process_image_data response s2) = Inr ()"
    by (rule process_image_data_returns)
  ultimately show "\<exists>s'. acquire_image s = Some (Inr (), s')"
    by (cases "process_image_data response s2") auto
next
  fix p0 base64_data ps e
  assume "split_bytes response ''/9j/'' = p0 # base64_data # ps
            \<and> b64decode (''/9j/'' @ base64_data) = Inl e"
  then show "acquire_image s
       = Some (Inr (), log ERROR (''Error processing image data: '' @ message e) s2)"
    using acquire_image_with_marker[OF assms] process_image_data_decode_fails by simp
qed

lemma split_truncated: "split_bytes ''HEADER/9j/AAAAB'' ''/9j/'' = [''HEADER'', ''AAAAB'']"
  by code_simp

lemma decode_truncated:
  "b64decode (''/9j/'' @ ''AAAAB'')
   = Inl (Exn BinasciiError ''Invalid base64-encoded string: number of data characters (9) cannot be 1 more than a multiple of 4'')"
  by code_simp

theorem decode_failure_is_caught_witness:
  "\<exists>s'. acquire_image (lab (script [replies [], replies [''ok''], replies [], replies [''HEADER/9j/'', ''AAAAB'']]) (\<lambda>p. WriteOk))
          = Some (Inr (), s')
      \<and> last (trace s') = Log ERROR ''Error processing image data: Invalid base64-encoded string: number of data characters (9) cannot be 1 more than a multiple of 4''
      \<and> files s' = Map.empty"
proof -
  let ?s = "lab (script [replies [], replies [''ok''], replies [], replies [''HEADER/9j/'', ''AAAAB'']]) (\<lambda>p. WriteOk)"
  have "[] \<notin> set [''ok'']" "[] \<notin> set [''HEADER/9j/'', ''AAAAB'']" by simp_all
  from lab_exchange[OF this, of "[]" "[]" "\<lambda>p. WriteOk"]
  obtain s1 s2 where
    h1: "trigger (log INFO ''Acquiring image from camera'' ?s) = Some (Inr (), s1)" and
    h2: "send_command (''getresultimage'' @ CRLF) s1 = Some (Inr ''HEADER/9j/AAAAB'', s2)" and
    f2: "files s2 = Map.empty"
    by auto
  have h3: "contains ''/9j/'' ''HEADER/9j/AAAAB''" by code_simp
  from decode_failure_is_caught[OF h1 h2 h3, THEN conjunct2, rule_format,
      OF conjI[OF split_truncated decode_truncated]]
  show ?thesis using f2 by (simp add: log_def emit_def)
qed

section \<open>acquire_image when the file cannot be written\<close>

lemma lab_path_eq: "''./images/'' @ ''output_image_'' @ strftime (clock s) @ ''.jpg'' = lab_path"
  if "clock s = lab_clock"
proof -
  have "strftime lab_clock = ''20240309_140507''" by code_simp
  with that show ?thesis by (simp add: lab_path_def)
qed

lemma save_image_data_raises:
  assumes "open_and_write image_path image_data s = (Inl e, s1)"
      and "isinstance_IOError e"
  shows "save_image_data image_data image_path s
         = (Inl (Exn OSError (''Failed to save image to '' @ image_path @ ''. Error: '' @ message e)), s1)"
  using assms by (simp add: save_image_data_def)

lemma acquire_image_write_fails:
  assumes "trigger (log INFO ''Acquiring image from camera'' s) = Some (Inr (), s1)"
      and "send_command (''getresultimage'' @ CRLF) s1 = Some (Inr response, s2)"
      and "contains ''/9j/'' response"
      and "split_bytes response ''/9j/'' = p0 # base64_data # ps"
      and "b64decode (''/9j/'' @ base64_data) = Inr image_data"
      and "image_path = ''./images/'' @ ''output_image_'' @ strftime (clock s2) @ ''.jpg''"
      and "open_and_write image_path image_data s2 = (Inl e, s3)"
      and "isinstance_IOError e"
  shows "save_image_data image_data image_path s2
           = (Inl (Exn OSError (''Failed to save image to '' @ image_path @ ''. Error: ''
                                @ message e)), s3)
       \<and> acquire_image s
           = Some (Inr (), log ERROR (''Error processing image data: ''
                     @ ''Failed to save image to '' @ image_path @ ''. Error: '' @ message e) s3)"
proof -
  have sv: "save_image_data image_data image_path s2
           = (Inl (Exn OSError (''Failed to save image to '' @ image_path @ ''. Error: ''
                                @ message e)), s3)"
    using assms(7,8) by (rule save_image_data_raises)
  have "acquire_image s = Some (process_image_data response s2)"
    using assms(1-3) by (rule acquire_image_with_marker)
  also have "process_image_data response s2
      = (Inr (), log ERROR (''Error processing image data: ''
                     @ ''Failed to save image to '' @ image_path @ ''. Error: '' @ message e) s3)"
    using sv assms(6) by (simp add: process_image_data_save[OF assms(4,5)])
  finally show ?thesis using sv by simp
qed

lemma full_disk_exchange:
  "\<exists>s1 s2. trigger (log INFO ''Acquiring image from camera'' full_disk_world) = Some (Inr (), s1)
     \<and> send_command (''getresultimage'' @ CRLF) s1 = Some (Inr ''HEADER/9j/AAAA=='', s2)
     \<and> fs s2 = full_disk \<and> clock s2 = lab_clock \<and> files s2 = Map.empty"
proof -
  have "[] \<notin> set [''ok'']" "[] \<notin> set [''HEADER/9j/AAAA=='']" by simp_all
  from lab_exchange[OF this, of "[]" "[]" full_disk] show ?thesis
    by (simp add: full_disk_world_def camera_def)
qed

lemma split_example: "split_bytes ''HEADER/9j/AAAA=='' ''/9j/'' = [''HEADER'', ''AAAA=='']"
  by code_simp

lemma decode_example:
  "b64decode (''/9j/'' @ ''AAAA=='') = Inr [CHR 0xFF, CHR 0xD8, CHR 0xFF, CHR 0x00, CHR 0x00, CHR 0x00]"
  by code_simp

lemma contains_example: "contains ''/9j/'' ''HEADER/9j/AAAA==''"
  by code_simp

lemma full_disk_run:
  "\<exists>s3. acquire_image full_disk_world
     = Some (Inr (), log ERROR (''Error processing image data: ''
                     @ ''Failed to save image to '' @ lab_path @ ''. Error: ''
                     @ ''[Errno 28] No space left on device'') s3)"
proof -
  obtain s1 s2 where
    h1: "trigger (log INFO ''Acquiring image from camera'' full_disk_world) = Some (Inr (), s1)" and
    h2: "send_command (''getresultimage'' @ CRLF) s1 = Some (Inr ''HEADER/9j/AAAA=='', s2)" and
    w: "fs s2 = full_disk" "clock s2 = lab_clock"
    using full_disk_exchange by blast
  have p: "lab_path = ''./images/'' @ ''output_image_'' @ strftime (clock s2) @ ''.jpg''"
    using lab_path_eq[OF w(2)] by simp
  obtain s3 where h7: "open_and_write lab_path [CHR 0xFF, CHR 0xD8, CHR 0xFF, CHR 0x00, CHR 0x00, CHR 0x00] s2
       = (Inl (Exn OSError ''[Errno 28] No space left on device''), s3)"
    using w(1) by (simp add: open_and_write_def full_disk_def)
  have h8: "isinstance_IOError (Exn OSError ''[Errno 28] No space left on device'')"
    by (simp add: isinstance_IOError_def)
  from acquire_image_write_fails[OF h1 h2 contains_example split_example decode_example p h7 h8]
  show ?thesis by auto
qed

text \<open>
  Claim C4, as stated, fails: on a camera that delivers an image and a disk that is full,
  the write raises, and yet \<open>acquire_image\<close> returns normally; the failure ends as an
  error line of the log.
\<close>

theorem write_failure_propagates_counterexample:
  "outcome (acquire_image full_disk_world) = Some (Inr ())
   \<and> last_event (acquire_image full_disk_world)
       = Some (Log ERROR (''Error processing image data: Failed to save image to ''
            @ ''./images/output_image_20240309_140507.jpg''
            @ ''. Error: [Errno 28] No space left on device''))"
proof -
  obtain s3 where "acquire_image full_disk_world
     = Some (Inr (), log ERROR (''Error processing image data: ''
                     @ ''Failed to save image to '' @ lab_path @ ''. Error: ''
                     @ ''[Errno 28] No space left on device'') s3)"
    using full_disk_run by blast
  then show ?thesis
    by (simp add: outcome_def last_event_def log_def emit_def lab_path_def)
qed

text \<open>
  Claim C4, amended. When the output file cannot be created or written,
  \<open>save_image_data\<close> raises an IOError that names the path and the cause to its caller;
  the caller is the \<open>try\<close> of \<open>_process_image_data\<close>, whose \<open>except Exception\<close> catches and
  logs it, as it does a decode failure: \<open>acquire_image\<close> returns normally.
\<close>

theorem write_failure_is_caught:
  assumes "trigger (log INFO ''Acquiring image from camera'' s) = Some (Inr (), s1)"
      and "send_command (''getresultimage'' @ CRLF) s1 = Some (Inr response, s2)"
      and "contains ''/9j/'' response"
      and "split_bytes response ''/9j/'' = p0 # base64_data # ps"
      and "b64decode (''/9j/'' @ base64_data) = Inr image_data"
      and "image_path = ''./images/'' @ ''output_image_'' @ strftime (clock s2) @ ''.jpg''"
      and "open_and_write image_path image_data s2 = (Inl e, s3)"
      and "isinstance_IOError e"
  shows "save_image_data image_data image_path s2
           = (Inl (Exn OSError (''Failed to save image to '' @ image_path @ ''. Error: ''
                                @ message e)), s3)
       \<and> acquire_image s
           = Some (Inr (), log ERROR (''Error processing image data: ''
                     @ ''Failed to save image to '' @ image_path @ ''. Error: '' @ message e) s3)"
  using assms by (rule acquire_image_write_fails)

theorem write_failure_is_caught_witness:
  "\<exists>s3. acquire_image full_disk_world
     = Some (Inr (), log ERROR (''Error processing image data: ''
                     @ ''Failed to save image to '' @ lab_path @ ''. Error: ''
                     @ ''[Errno 28] No space left on device'') s3)"
proof -
  obtain s1 s2 where
    h1: "trigger (log INFO ''Acquiring image from camera'' full_disk_world) = Some (Inr (), s1)" and
    h2: "send_command (''getresultimage'' @ CRLF) s1 = Some (Inr ''HEADER/9j/AAAA=='', s2)" and
    w: "fs s2 = full_disk" "clock s2 = lab_clock"
    using full_disk_exchange by blast
  have p: "lab_path = ''./images/'' @ ''output_image_'' @ strftime (clock s2) @ ''.jpg''"
    using lab_path_eq[OF w(2)] by simp
  obtain s3 where h7: "open_and_write lab_path [CHR 0xFF, CHR 0xD8, CHR 0xFF, CHR 0x00, CHR 0x00, CHR 0x00] s2
       = (Inl (Exn OSError ''[Errno 28] No space left on device''), s3)"
    using w(1) by (simp add: open_and_write_def full_disk_def)
  have h8: "isinstance_IOError (Exn OSError ''[Errno 28] No space left on device'')"
    by (simp add: isinstance_IOError_def)
  from write_failure_is_caught[OF h1 h2 contains_example split_example decode_example p h7 h8]
  show ?thesis by auto
qed

section \<open>The image data that acquire_image decodes\<close>

text \<open>
  What the code decodes is the marker followed by the second piece of the split, that
  is, the data between the first and the second occurrence of the marker.
\<close>

lemma acquire_image_saves:
  assumes "trigger (log INFO ''Acquiring image from camera'' s) = Some (Inr (), s1)"
      and "send_command (''getresultimage'' @ CRLF) s1 = Some (Inr response, s2)"
      and "contains ''/9j/'' response"
      and "split_bytes response ''/9j/'' = p0 # base64_data # ps"
      and "b64decode (''/9j/'' @ base64_data) = Inr image_data"
      and "image_path = ''./images/'' @ ''output_image_'' @ strftime (clock s2) @ ''.jpg''"
      and "fs s2 image_path = WriteOk"
  shows "acquire_image s
           = Some (Inr (), log INFO (''Image saved successfully: '' @ ''output_image_''
                              @ strftime (clock s2) @ ''.jpg'')
                            (s2\<lparr>files := (files s2)(image_path \<mapsto> image_data)\<rparr>))"
proof -
  have "save_image_data image_data image_path s2
        = (Inr (), s2\<lparr>files := (files s2)(image_path \<mapsto> image_data)\<rparr>)"
    using assms(7) by (simp add: save_image_data_def open_and_write_def)
  then have "process_image_data response s2
      = (Inr (), log INFO (''Image saved successfully: '' @ ''output_image_''
                              @ strftime (clock s2) @ ''.jpg'')
                            (s2\<lparr>files := (files s2)(image_path \<mapsto> image_data)\<rparr>))"
    using assms(6) by (simp add: process_image_data_save[OF assms(4,5)])
  with acquire_image_with_marker[OF assms(1-3)] show ?thesis by simp
qed

text \<open>
  When the marker occurs once, that is the part of the response from the marker to the
  end.
\<close>

lemma single_marker_payload:
  assumes "contains ''/9j/'' response"
      and "\<not> contains ''/9j/'' (drop 4 (from_first_marker ''/9j/'' response))"
  shows "\<exists>p0 base64_data. split_bytes response ''/9j/'' = [p0, base64_data]
           \<and> ''/9j/'' @ base64_data = from_first_marker ''/9j/'' response"
proof -
  have "\<exists>p. split_from ''/9j/'' [] response = [p, drop (length ''/9j/'') (from_first_marker ''/9j/'' response)]"
    using assms by (intro split_from_single) (simp_all add: eval_nat_numeral)
  moreover have "from_first_marker ''/9j/'' response
      = ''/9j/'' @ drop (length ''/9j/'') (from_first_marker ''/9j/'' response)"
    using assms(1) by (rule from_first_marker_decomp)
  ultimately show ?thesis by (auto simp: split_bytes_def)
qed

lemma two_marker_split: "split_bytes ''/9j/AAAA/9j/BBBB'' ''/9j/'' = ['''', ''AAAA'', ''BBBB'']"
  by code_simp

lemma two_marker_decode:
  "b64decode (''/9j/'' @ ''AAAA'') = Inr [CHR 0xFF, CHR 0xD8, CHR 0xFF, CHR 0x00, CHR 0x00, CHR 0x00]"
  by code_simp

lemma two_marker_contains: "contains ''/9j/'' ''/9j/AAAA/9j/BBBB''"
  by code_simp

lemma two_marker_spec_payload:
  "b64decode (from_first_marker ''/9j/'' ''/9j/AAAA/9j/BBBB'')
   = Inr [CHR 0xFF, CHR 0xD8, CHR 0xFF, CHR 0x00, CHR 0x00, CHR 0x00,
          CHR 0xFF, CHR 0xD8, CHR 0xFF, CHR 0x04, CHR 0x10, CHR 0x41]"
  by code_simp

lemma two_marker_run:
  "\<exists>s2. acquire_image two_marker_world
     = Some (Inr (), log INFO ''Image saved successfully: output_image_20240309_140507.jpg''
          (s2\<lparr>files := (files s2)(lab_path \<mapsto>
             [CHR 0xFF, CHR 0xD8, CHR 0xFF, CHR 0x00, CHR 0x00, CHR 0x00])\<rparr>))"
proof -
  have "[] \<notin> set [''ok'']" "[] \<notin> set [''/9j/AAAA/9j/BBBB'']" by simp_all
  from lab_exchange[OF this, of "[]" "[]" writable]
  obtain s1 s2 where
    h1: "trigger (log INFO ''Acquiring image from camera'' two_marker_world) = Some (Inr (), s1)" and
    h2: "send_command (''getresultimage'' @ CRLF) s1 = Some (Inr ''/9j/AAAA/9j/BBBB'', s2)" and
    w: "fs s2 = writable" "clock s2 = lab_clock"
    by (auto simp: two_marker_world_def camera_def)
  have p: "lab_path = ''./images/'' @ ''output_image_'' @ strftime (clock s2) @ ''.jpg''"
    using lab_path_eq[OF w(2)] by simp
  have ok: "fs s2 lab_path = WriteOk" using w(1) by (simp add: writable_def)
  have "strftime lab_clock = ''20240309_140507''" by code_simp
  with acquire_image_saves[OF h1 h2 two_marker_contains two_marker_split two_marker_decode p ok] w(2)
  show ?thesis by auto
qed

text \<open>
  Claim C1. The claim asks that the part of the response from the first marker to its
  end be decoded and written. On the response \<open>/9j/AAAA/9j/BBBB\<close>, in which the marker
  occurs twice, \<open>acquire_image\<close> writes the six bytes decoded from \<open>/9j/AAAA\<close>: the split
  has cut the data at the second marker. The part from the first marker to the end
  decodes to twelve bytes.
\<close>

theorem second_marker_truncates_image:
  "outcome (acquire_image two_marker_world) = Some (Inr ())
   \<and> file_after (acquire_image two_marker_world) lab_path
       = Some [CHR 0xFF, CHR 0xD8, CHR 0xFF, CHR 0x00, CHR 0x00, CHR 0x00]
   \<and> b64decode (from_first_marker ''/9j/'' ''/9j/AAAA/9j/BBBB'')
       = Inr [CHR 0xFF, CHR 0xD8, CHR 0xFF, CHR 0x00, CHR 0x00, CHR 0x00,
              CHR 0xFF, CHR 0xD8, CHR 0xFF, CHR 0x04, CHR 0x10, CHR 0x41]"
proof -
  obtain s2 where "acquire_image two_marker_world
     = Some (Inr (), log INFO ''Image saved successfully: output_image_20240309_140507.jpg''
          (s2\<lparr>files := (files s2)(lab_path \<mapsto>
             [CHR 0xFF, CHR 0xD8, CHR 0xFF, CHR 0x00, CHR 0x00, CHR 0x00])\<rparr>))"
    using two_marker_run by blast
  then show ?thesis
    using two_marker_spec_payload by (simp add: outcome_def file_after_def log_def emit_def)
qed

section \<open>Failures of the connection\<close>

lemma send_command_control_fails:
  assumes "net s (nconn s) = ConnectRaises e \<or> (\<exists>rcv. net s (nconn s) = Established (Some e) rcv)"
  shows "\<exists>s'. send_command command s
           = Some (Inl (if is_timeout_or_refused e
                        then Exn ConnectionError
                               (''Failed to send data to '' @ self_host s @ '':''
                                @ str_int (self_control_port s) @ ''. Error: '' @ message e)
                        else e), s')
         \<and> nconn s' = nconn s + 1"
  using assms
  by (auto simp: send_command_def send_to_socket_run log_def emit_def Let_def)

lemma send_command_results_fails:
  assumes "net s (nconn s) = Established None r0"
      and "net s (Suc (nconn s)) = ConnectRaises e
           \<or> (\<exists>sd rcv. net s (Suc (nconn s)) = Established sd rcv
                        \<and> recv_loop rcv 0 [] = Some (Inl e))"
  shows "\<exists>s'. send_command command s
           = Some (Inl (if is_timeout_or_refused e
                        then Exn ConnectionError
                               (''Failed to receive data from '' @ self_host s @ '':''
                                @ str_int (self_results_port s) @ ''. Error: '' @ message e)
                        else e), s')
         \<and> nconn s' = nconn s + 2"
  using assms
  by (auto simp: send_command_def send_to_socket_run receive_from_socket_run log_def emit_def Let_def)

text \<open>
  Claim C5, amended. For every command: when the connect or the send on the control
  channel, or the connect or a receive on the results channel, raises a timeout or a
  refusal, \<open>send_command\<close> fails with a ConnectionError whose message names the host,
  the port and the cause; any other exception of these steps, a reset by the peer
  included, propagates as it is. In both cases nothing is retried: one connection has
  been attempted when the control channel fails, two when the results channel fails.
\<close>

theorem timeout_or_refusal_is_wrapped:
  "((net s (nconn s) = ConnectRaises e \<or> (\<exists>rcv. net s (nconn s) = Established (Some e) rcv))
     \<longrightarrow> (\<exists>s'. send_command command s
                 = Some (Inl (if is_timeout_or_refused e
                              then Exn ConnectionError
                                     (''Failed to send data to '' @ self_host s @ '':''
                                      @ str_int (self_control_port s) @ ''. Error: '' @ message e)
                              else e), s')
               \<and> nconn s' = nconn s + 1))
   \<and> ((\<exists>r0. net s (nconn s) = Established None r0)
        \<and> (net s (Suc (nconn s)) = ConnectRaises e
             \<or> (\<exists>sd rcv. net s (Suc (nconn s)) = Established sd rcv
                          \<and> recv_loop rcv 0 [] = Some (Inl e)))
     \<longrightarrow> (\<exists>s'. send_command command s
                 = Some (Inl (if is_timeout_or_refused e
                              then Exn ConnectionError
                                     (''Failed to receive data from '' @ self_host s @ '':''
                                      @ str_int (self_results_port s) @ ''. Error: '' @ message e)
                              else e), s')
               \<and> nconn s' = nconn s + 2))"
  using send_command_control_fails[of s e command] send_command_results_fails[of s _ e command]
  by blast

lemma str_int_ports: "str_int 107 = ''107''" "str_int 25250 = ''25250''"
  by (simp_all add: str_int_def str_nat.simps digit_char_def)

lemma stalls_times_out: "recv_loop stalls 0 [] = Some (Inl (Exn SocketTimeout ''timed out''))"
proof -
  have "recv_loop stalls 0 [] = recv_loop stalls (Suc 0) ([] @ ''partial'')"
    by (subst recv_loop.simps) (simp add: stalls_def)
  also have "\<dots> = Some (Inl (Exn SocketTimeout ''timed out''))"
    by (rule recv_loop_raise) (simp add: stalls_def)
  finally show ?thesis .
qed

theorem timeout_or_refusal_is_wrapped_witness:
  "outcome (send_command (''TRIGGER'' @ CRLF) refusing_world)
     = Some (Inl (Exn ConnectionError
         ''Failed to send data to 192.168.1.200:107. Error: [Errno 111] Connection refused''))
   \<and> outcome (send_command (''getresultimage'' @ CRLF) stalling_world)
     = Some (Inl (Exn ConnectionError
         ''Failed to receive data from 192.168.1.200:25250. Error: timed out''))
   \<and> outcome (send_command (''TRIGGER'' @ CRLF) reset_world)
     = Some (Inl (Exn ConnectionResetError ''[Errno 104] Connection reset by peer''))"
proof -
  let ?refused = "Exn ConnectionRefusedError ''[Errno 111] Connection refused''"
  let ?timeout = "Exn SocketTimeout ''timed out''"
  let ?reset = "Exn ConnectionResetError ''[Errno 104] Connection reset by peer''"
  have a: "net refusing_world (nconn refusing_world) = ConnectRaises ?refused
           \<or> (\<exists>rcv. net refusing_world (nconn refusing_world) = Established (Some ?refused) rcv)"
    by (simp add: refusing_world_def lab_def script_def)
  have b: "(\<exists>r0. net stalling_world (nconn stalling_world) = Established None r0)
        \<and> (net stalling_world (Suc (nconn stalling_world)) = ConnectRaises ?timeout
             \<or> (\<exists>sd rcv. net stalling_world (Suc (nconn stalling_world)) = Established sd rcv
                          \<and> recv_loop rcv 0 [] = Some (Inl ?timeout)))"
    by (simp add: stalling_world_def lab_def script_def replies_def stalls_times_out)
  have c: "net reset_world (nconn reset_world) = ConnectRaises ?reset
           \<or> (\<exists>rcv. net reset_world (nconn reset_world) = Established (Some ?reset) rcv)"
    by (simp add: reset_world_def lab_def script_def)
  from timeout_or_refusal_is_wrapped[of refusing_world ?refused "''TRIGGER'' @ CRLF"] a
  have "outcome (send_command (''TRIGGER'' @ CRLF) refusing_world)
     = Some (Inl (Exn ConnectionError
         ''Failed to send data to 192.168.1.200:107. Error: [Errno 111] Connection refused''))"
    by (auto simp: outcome_def is_timeout_or_refused_def refusing_world_def lab_def str_int_ports)
  moreover
  from timeout_or_refusal_is_wrapped[of stalling_world ?timeout "''getresultimage'' @ CRLF"] b
  have "outcome (send_command (''getresultimage'' @ CRLF) stalling_world)
     = Some (Inl (Exn ConnectionError
         ''Failed to receive data from 192.168.1.200:25250. Error: timed out''))"
    by (auto simp: outcome_def is_timeout_or_refused_def stalling_world_def lab_def str_int_ports)
  moreover
  from timeout_or_refusal_is_wrapped[of reset_world ?reset "''TRIGGER'' @ CRLF"] c
  have "outcome (send_command (''TRIGGER'' @ CRLF) reset_world) = Some (Inl ?reset)"
    by (auto simp: outcome_def is_timeout_or_refused_def)
  ultimately show ?thesis by blast
qed

lemma reset_run:
  "\<exists>s'. send_command (''TRIGGER'' @ CRLF) reset_world
     = Some (Inl (Exn ConnectionResetError ''[Errno 104] Connection reset by peer''), s')"
proof -
  have "net reset_world (nconn reset_world) = ConnectRaises (Exn ConnectionResetError ''[Errno 104] Connection reset by peer'')
           \<or> (\<exists>rcv. net reset_world (nconn reset_world) = Established (Some (Exn ConnectionResetError ''[Errno 104] Connection reset by peer'')) rcv)"
    by (simp add: reset_world_def lab_def script_def)
  from send_command_control_fails[OF this, of "''TRIGGER'' @ CRLF"] show ?thesis
    by (auto simp: is_timeout_or_refused_def)
qed

text \<open>
  Claim C5, as stated, fails for a reset: when the peer resets the control connection
  during the send, \<open>send_command\<close> fails with the ConnectionResetError of the socket
  itself, whose message names neither the host nor the port.
\<close>

theorem reset_is_not_wrapped_counterexample:
  "outcome (send_command (''TRIGGER'' @ CRLF) reset_world)
     = Some (Inl (Exn ConnectionResetError ''[Errno 104] Connection reset by peer''))
   \<and> \<not> contains (self_host reset_world) ''[Errno 104] Connection reset by peer''
   \<and> \<not> contains (str_int (self_control_port reset_world)) ''[Errno 104] Connection reset by peer''"
proof -
  have h: "self_host reset_world = ''192.168.1.200''" "self_control_port reset_world = 107"
    by (simp_all add: reset_world_def lab_def)
  have "\<not> contains ''192.168.1.200'' ''[Errno 104] Connection reset by peer''"
    by code_simp
  moreover have "\<not> contains ''107'' ''[Errno 104] Connection reset by peer''"
    by code_simp
  moreover obtain s' where "send_command (''TRIGGER'' @ CRLF) reset_world
     = Some (Inl (Exn ConnectionResetError ''[Errno 104] Connection reset by peer''), s')"
    using reset_run by blast
  ultimately show ?thesis
    by (simp add: outcome_def h str_int_ports)
qed

section \<open>The command line\<close>

lemma main_trigger_run:
  assumes "arg_trigger a" and "main a s = Some s'"
  shows "\<exists>t. trace s' = trace s @ Log INFO ''Triggering camera'' # t
           \<and> Log INFO ''Acquiring image from camera'' \<notin> set t
           \<and> (\<forall>h p. SendAll h p (''getresultimage'' @ CRLF) \<notin> set t)
           \<and> files s' = files s"
proof -
  let ?c = "CameraControl_init (arg_host a) (arg_control_port a) (arg_results_port a) s"
  have c: "trace ?c = trace s" "files ?c = files s"
    by (simp_all add: CameraControl_init_def)
  have mt: "main_try a s = trigger ?c"
    using assms(1) by (simp add: main_try_def)
  obtain r s1 where tr: "trigger ?c = Some (r, s1)"
    using assms(2) mt by (cases "trigger ?c") (auto simp: main_def)
  have fin: "s' = s1 \<or> (\<exists>m. s' = emit (Print m) s1)"
  proof (cases r)
    case (Inl e)
    with assms(2) mt tr show ?thesis
      by (cases "isinstance_ConnectionError e") (auto simp: main_def)
  next
    case (Inr u)
    with assms(2) mt tr show ?thesis by (simp add: main_def)
  qed
  from trigger_sends[OF tr] obtain t where
    t: "trace s1 = trace ?c @ Log INFO ''Triggering camera'' # Log INFO ''Sending command: TRIGGER'' # t"
    and nolog: "\<forall>e \<in> set t. \<not> is_Log e \<and> \<not> is_Print e"
    and sends: "filter is_SendAll t =
               (case net ?c (nconn ?c) of
                  ConnectRaises e \<Rightarrow> []
                | Established sd rcv \<Rightarrow>
                    [SendAll (self_host ?c) (self_control_port ?c) (''TRIGGER'' @ CRLF)])"
    by blast
  have nosend: "SendAll h p (''getresultimage'' @ CRLF) \<notin> set t" for h p
  proof
    assume "SendAll h p (''getresultimage'' @ CRLF) \<in> set t"
    then have "SendAll h p (''getresultimage'' @ CRLF) \<in> set (filter is_SendAll t)" by simp
    with sends show False by (cases "net ?c (nconn ?c)") (simp_all add: CRLF_def)
  qed
  have noacq: "Log INFO ''Acquiring image from camera'' \<notin> set t"
    using nolog by auto
  from trigger_frame[OF tr] have f1: "files s1 = files s" using c by auto
  from fin show ?thesis
  proof
    assume "s' = s1"
    with t c nosend noacq f1 show ?thesis by simp
  next
    assume "\<exists>m. s' = emit (Print m) s1"
    then obtain m where "s' = emit (Print m) s1" by blast
    with t c nosend noacq f1 show ?thesis by (simp add: emit_def)
  qed
qed

text \<open>
  Claim C9. When both \<open>--trigger\<close> and \<open>--acquire\<close> are given, \<open>main\<close> does what it does
  with \<open>--trigger\<close> alone: the run begins with the trigger, \<open>acquire_image\<close> is never
  entered (its first log line does not appear), \<open>getresultimage\<close> is never sent, and no
  file is written. The combination is not rejected.
\<close>

theorem trigger_takes_precedence:
  assumes "arg_trigger a" and "arg_acquire a"
  shows "main a s = main (a\<lparr>arg_acquire := False\<rparr>) s
       \<and> (\<forall>s'. main a s = Some s' \<longrightarrow>
            (\<exists>t. trace s' = trace s @ Log INFO ''Triggering camera'' # t
               \<and> Log INFO ''Acquiring image from camera'' \<notin> set t
               \<and> (\<forall>h p. SendAll h p (''getresultimage'' @ CRLF) \<notin> set t)
               \<and> files s' = files s))"
proof (intro conjI allI impI)
  show "main a s = main (a\<lparr>arg_acquire := False\<rparr>) s"
    using assms(1) by (simp add: main_def main_try_def)
next
  fix s' assume "main a s = Some s'"
  with assms(1) show "\<exists>t. trace s' = trace s @ Log INFO ''Triggering camera'' # t
               \<and> Log INFO ''Acquiring image from camera'' \<notin> set t
               \<and> (\<forall>h p. SendAll h p (''getresultimage'' @ CRLF) \<notin> set t)
               \<and> files s' = files s"
    by (rule main_trigger_run)
qed

lemma main_both_flags_returns:
  "\<exists>s'. main both_flags (lab (camera []) writable) = Some s'"
proof -
  let ?c = "CameraControl_init (arg_host both_flags) (arg_control_port both_flags)
              (arg_results_port both_flags) (lab (camera []) writable)"
  have n: "net ?c (nconn ?c) = Established None (\<lambda>i. if i < length ([]::bytes list) then Inr ([] ! i) else Inr [])"
     "net ?c (Suc (nconn ?c)) = Established None (\<lambda>i. if i < length [''ok''] then Inr ([''ok''] ! i) else Inr [])"
    by (simp_all add: lab_def camera_def script_def replies_def CameraControl_init_def)
  have ok: "recv_loop (\<lambda>i. if i < length [''ok''] then Inr ([''ok''] ! i) else Inr []) 0 [] = Some (Inr (concat [''ok'']))"
    by (rule replies_returns) simp
  from trigger_established[OF n ok] obtain s1 where "trigger ?c = Some (Inr (), s1)" by blast
  then show ?thesis
    by (simp add: main_def main_try_def both_flags_def)
qed

theorem trigger_takes_precedence_witness:
  "\<exists>s' t. main both_flags (lab (camera []) writable) = Some s'
     \<and> trace s' = Log INFO ''Triggering camera'' # t
     \<and> Log INFO ''Acquiring image from camera'' \<notin> set t
     \<and> (\<forall>h p. SendAll h p (''getresultimage'' @ CRLF) \<notin> set t)
     \<and> files s' = Map.empty"
proof -
  have h1: "arg_trigger both_flags" and h2: "arg_acquire both_flags"
    by (simp_all add: both_flags_def)
  obtain s' where run: "main both_flags (lab (camera []) writable) = Some s'"
    using main_both_flags_returns by blast
  from trigger_takes_precedence[OF h1 h2, of "lab (camera []) writable"] run
  show ?thesis by (auto simp: lab_def)
qed

section \<open>What trigger sends\<close>

















end
